theory Spec2Isabelle
  imports Main
begin

section \<open>JavaScript strings and numbers\<close>

text \<open>
  The program is \<^verbatim>\<open>src/App.jsx\<close>: a local-date codec (\<^verbatim>\<open>formatDateLocal\<close>,
  \<^verbatim>\<open>parseLocalDate\<close>), a generator of synthetic events
  (\<^verbatim>\<open>generateStevnerForRange\<close>) and a date-range filter (\<^verbatim>\<open>isEventWithinRange\<close>,
  \<^verbatim>\<open>visibleRanges\<close>).

  A JavaScript string is a \<open>string\<close>: one \<open>char\<close> per code unit, so the model covers the
  strings whose code units are below 256. A JavaScript number that the program computes is
  an integer or NaN: it is an \<open>int option\<close>, with \<open>None\<close> for NaN. The values stay far
  below \<open>2 ^ 53\<close> wherever the result is not an invalid date, so the rounding of doubles
  changes nothing.
\<close>

type_synonym jsnum = "int option"

datatype error = TypeError

text \<open>\<^verbatim>\<open>String(n)\<close> and \<^verbatim>\<open>`${n}`\<close> for an integer, and for NaN.\<close>

fun showNat :: "nat \<Rightarrow> string" where
  "showNat n =
     (if n < 10 then [''0123456789'' ! n]
      else showNat (n div 10) @ [''0123456789'' ! (n mod 10)])"

declare showNat.simps [simp del]

definition showInt :: "int \<Rightarrow> string" where
  "showInt i = (if i < 0 then CHR ''-'' # showNat (nat (- i)) else showNat (nat i))"

definition ToString :: "jsnum \<Rightarrow> string" where
  "ToString n = (case n of None \<Rightarrow> ''NaN'' | Some i \<Rightarrow> showInt i)"

text \<open>\<^verbatim>\<open>s.padStart(2, "0")\<close>.\<close>

definition padStart2 :: "string \<Rightarrow> string" where
  "padStart2 s = replicate (2 - length s) (CHR ''0'') @ s"

text \<open>\<^verbatim>\<open>s.charCodeAt(0)\<close>: NaN when the string is empty.\<close>

definition charCodeAt0 :: "string \<Rightarrow> jsnum" where
  "charCodeAt0 s = (case s of [] \<Rightarrow> None | c # _ \<Rightarrow> Some (int (of_char c)))"

text \<open>\<^verbatim>\<open>s.split("-")\<close>: the pieces between the separators, at least one piece.\<close>

fun splitOn :: "char \<Rightarrow> string \<Rightarrow> string list" where
  "splitOn sep [] = [[]]"
| "splitOn sep (c # cs) =
     (if c = sep then [] # splitOn sep cs
      else (case splitOn sep cs of
              [] \<Rightarrow> [[c]]
            | p # ps \<Rightarrow> (c # p) # ps))"

text \<open>
  \<^verbatim>\<open>parseInt(s, 10)\<close>: leading white space is skipped, then an optional sign, then the
  longest run of decimal digits is read; NaN when that run is empty.
\<close>

definition isWhiteSpace :: "char \<Rightarrow> bool" where
  "isWhiteSpace c = ((of_char c :: nat) \<in> {9, 10, 11, 12, 13, 32, 160})"

definition isDigit :: "char \<Rightarrow> bool" where
  "isDigit c = (48 \<le> (of_char c :: nat) \<and> (of_char c :: nat) \<le> 57)"

definition digitValue :: "char \<Rightarrow> int" where
  "digitValue c = int (of_char c) - 48"

definition digitsValue :: "string \<Rightarrow> int" where
  "digitsValue Z = foldl (\<lambda>a c. 10 * a + digitValue c) 0 Z"

text \<open>The sign and the run of digits that \<^verbatim>\<open>parseInt\<close> reads.\<close>

definition signOf :: "string \<Rightarrow> int" where
  "signOf str =
     (case dropWhile isWhiteSpace str of
        [] \<Rightarrow> 1
      | c # _ \<Rightarrow> (if c = CHR ''-'' then - 1 else 1))"

definition digitPrefix :: "string \<Rightarrow> string" where
  "digitPrefix str =
     (case dropWhile isWhiteSpace str of
        [] \<Rightarrow> []
      | c # cs \<Rightarrow>
          (if c = CHR ''+'' \<or> c = CHR ''-'' then takeWhile isDigit cs
           else takeWhile isDigit (c # cs)))"

definition parseInt10 :: "string \<Rightarrow> jsnum" where
  "parseInt10 str =
     (let Z = digitPrefix str
      in if Z = [] then None else Some (signOf str * digitsValue Z))"

section \<open>The built-in Date\<close>

text \<open>
  A Date is invalid (its time value is NaN) or a moment of local time, kept as its local
  calendar fields: year, month (0 to 11), day of the month (from 1) and milliseconds since
  local midnight. Its time value follows ECMAScript's \<^verbatim>\<open>MakeDay\<close>, \<^verbatim>\<open>MakeDate\<close> and
  \<^verbatim>\<open>UTC\<close>. The host's time zone is an input of the model: \<open>tza\<close> is the offset of local
  time from UTC in milliseconds (ECMAScript's \<^verbatim>\<open>LocalTZA\<close>), taken as constant: the
  model has no daylight-saving change.
\<close>

record localtime =
  year :: int
  month :: int
  day :: int
  msec :: int

datatype jsdate = InvalidDate | Date localtime

definition msPerDay :: int where
  "msPerDay = 86400000"

definition InLeapYear :: "int \<Rightarrow> bool" where
  "InLeapYear y =
     (if y mod 400 = 0 then True
      else if y mod 100 = 0 then False
      else y mod 4 = 0)"

definition DayFromYear :: "int \<Rightarrow> int" where
  "DayFromYear y =
     365 * (y - 1970) + (y - 1969) div 4 - (y - 1901) div 100 + (y - 1601) div 400"

definition DaysInMonth :: "int \<Rightarrow> int \<Rightarrow> int" where
  "DaysInMonth y m =
     (if m = 1 then (if InLeapYear y then 29 else 28)
      else if m = 3 \<or> m = 5 \<or> m = 8 \<or> m = 10 then 30
      else 31)"

text \<open>The number of days of the year \<open>y\<close> before its month \<open>m\<close>.\<close>

definition DayWithinYear :: "int \<Rightarrow> int \<Rightarrow> int" where
  "DayWithinYear y m =
     (let leap = (if InLeapYear y then 1 else 0)
      in if m = 0 then 0
         else if m = 1 then 31
         else if m = 2 then 59 + leap
         else if m = 3 then 90 + leap
         else if m = 4 then 120 + leap
         else if m = 5 then 151 + leap
         else if m = 6 then 181 + leap
         else if m = 7 then 212 + leap
         else if m = 8 then 243 + leap
         else if m = 9 then 273 + leap
         else if m = 10 then 304 + leap
         else 334 + leap)"

definition MakeDay :: "int \<Rightarrow> int \<Rightarrow> int \<Rightarrow> int" where
  "MakeDay y m dt =
     (let ym = y + m div 12; mn = m mod 12
      in DayFromYear ym + DayWithinYear ym mn + dt - 1)"

text \<open>The time value of local calendar fields: milliseconds since the epoch, in UTC.\<close>

definition timeValue :: "int \<Rightarrow> localtime \<Rightarrow> int" where
  "timeValue tza f = MakeDay (year f) (month f) (day f) * msPerDay + msec f - tza"

text \<open>
  A day of the month outside its month rolls over into the following months, or back into
  the preceding ones. The month is between 0 and 11 here.
\<close>

function rollDay :: "int \<Rightarrow> int \<Rightarrow> int \<Rightarrow> int \<times> int \<times> int" where
  "rollDay y m dt =
     (if dt < 1 then
        (let y' = (if m \<le> 0 then y - 1 else y); m' = (if m \<le> 0 then 11 else m - 1)
         in rollDay y' m' (dt + DaysInMonth y' m'))
      else if DaysInMonth y m < dt then
        (let y' = (if 11 \<le> m then y + 1 else y); m' = (if 11 \<le> m then 0 else m + 1)
         in rollDay y' m' (dt - DaysInMonth y m))
      else (y, m, dt))"
  by pat_completeness auto
termination
  by (relation "measure (\<lambda>(y, m, dt). if dt < 1 then nat (40 - dt) else nat dt)")
     (auto simp: DaysInMonth_def Let_def)

declare rollDay.simps [simp del]

text \<open>
  \<^verbatim>\<open>TimeClip\<close>: a Date holds a time value of at most 8.64e15 milliseconds either side of
  the epoch, and is invalid beyond.
\<close>

definition TimeClip :: "int \<Rightarrow> localtime \<Rightarrow> jsdate" where
  "TimeClip tza f = (if \<bar>timeValue tza f\<bar> \<le> 8640000000000000 then Date f else InvalidDate)"

text \<open>
  \<^verbatim>\<open>new Date(y, m, d)\<close> on integers: local midnight of the day. A year from 0 to 99
  stands for 1900 to 1999; months beyond 11 and days beyond the month roll over.
\<close>

definition newDate :: "int \<Rightarrow> int \<Rightarrow> int \<Rightarrow> int \<Rightarrow> jsdate" where
  "newDate tza y m dt =
     (let yr = (if 0 \<le> y \<and> y \<le> 99 then 1900 + y else y)
      in case rollDay (yr + m div 12) (m mod 12) dt of
           (y', m', d') \<Rightarrow> TimeClip tza \<lparr>year = y', month = m', day = d', msec = 0\<rparr>)"

text \<open>The getters; each is NaN on an invalid Date.\<close>

definition getTime :: "int \<Rightarrow> jsdate \<Rightarrow> jsnum" where
  "getTime tza date = (case date of InvalidDate \<Rightarrow> None | Date f \<Rightarrow> Some (timeValue tza f))"

definition getFullYear :: "jsdate \<Rightarrow> jsnum" where
  "getFullYear date = (case date of InvalidDate \<Rightarrow> None | Date f \<Rightarrow> Some (year f))"

definition getMonth :: "jsdate \<Rightarrow> jsnum" where
  "getMonth date = (case date of InvalidDate \<Rightarrow> None | Date f \<Rightarrow> Some (month f))"

definition getDate :: "jsdate \<Rightarrow> jsnum" where
  "getDate date = (case date of InvalidDate \<Rightarrow> None | Date f \<Rightarrow> Some (day f))"

text \<open>\<^verbatim>\<open>date.setDate(n)\<close>: the same month and time of day, the day of the month replaced.\<close>

definition setDate :: "int \<Rightarrow> jsdate \<Rightarrow> jsnum \<Rightarrow> jsdate" where
  "setDate tza date n =
     (case (date, n) of
        (Date f, Some dt) \<Rightarrow>
          (case rollDay (year f) (month f) dt of
             (y', m', d') \<Rightarrow> TimeClip tza (f\<lparr>year := y', month := m', day := d'\<rparr>))
      | _ \<Rightarrow> InvalidDate)"

text \<open>\<^verbatim>\<open>date.setHours(23, 59, 59, 999)\<close>: the same day, its last millisecond.\<close>

definition setHoursEndOfDay :: "int \<Rightarrow> jsdate \<Rightarrow> jsdate" where
  "setHoursEndOfDay tza date =
     (case date of
        InvalidDate \<Rightarrow> InvalidDate
      | Date f \<Rightarrow> TimeClip tza (f\<lparr>msec := ((23 * 60 + 59) * 60 + 59) * 1000 + 999\<rparr>))"

text \<open>
  The relational operators on numbers: false when an operand is NaN. A Date operand
  stands for its time value, and \<^verbatim>\<open>null\<close> for 0.
\<close>

definition jsLess :: "jsnum \<Rightarrow> jsnum \<Rightarrow> bool" where
  "jsLess a b = (case (a, b) of (Some x, Some y) \<Rightarrow> x < y | _ \<Rightarrow> False)"

definition jsPlus :: "jsnum \<Rightarrow> jsnum \<Rightarrow> jsnum" where
  "jsPlus a b = (case (a, b) of (Some x, Some y) \<Rightarrow> Some (x + y) | _ \<Rightarrow> None)"

definition ToNumber :: "int \<Rightarrow> jsdate option \<Rightarrow> jsnum" where
  "ToNumber tza v = (case v of None \<Rightarrow> Some 0 | Some date \<Rightarrow> getTime tza date)"

section \<open>The local-date codec\<close>

definition formatDateLocal :: "jsdate \<Rightarrow> string" where
  "formatDateLocal date =
     (let y = getFullYear date;
          m = padStart2 (ToString (jsPlus (getMonth date) (Some 1)));
          d = padStart2 (ToString (getDate date))
      in ToString y @ ''-'' @ m @ ''-'' @ d)"

text \<open>
  A missing element of the destructured array is \<^verbatim>\<open>undefined\<close>; like NaN and 0 it is
  falsy, and like NaN it is \<open>None\<close> here. The result \<open>None\<close> is \<^verbatim>\<open>null\<close>.
  The only falsy string is the empty one, so \<^verbatim>\<open>dateStr || ""\<close> is \<open>dateStr\<close>.
\<close>

definition element :: "jsnum list \<Rightarrow> nat \<Rightarrow> jsnum" where
  "element xs i = (if i < length xs then xs ! i else None)"

definition falsy :: "jsnum \<Rightarrow> bool" where
  "falsy n = (case n of None \<Rightarrow> True | Some i \<Rightarrow> i = 0)"

definition parseLocalDate :: "int \<Rightarrow> string \<Rightarrow> jsdate option" where
  "parseLocalDate tza dateStr =
     (let ns = map parseInt10 (splitOn (CHR ''-'') dateStr);
          y = element ns 0; m = element ns 1; d = element ns 2
      in if falsy y \<or> falsy m \<or> falsy d then None
         else (case (y, m, d) of
                 (Some y', Some m', Some d') \<Rightarrow> Some (newDate tza y' (m' - 1) d')
               | _ \<Rightarrow> None))"

section \<open>The synthetic event generator\<close>

text \<open>
  An event (\<^verbatim>\<open>stevne\<close>) and a range record. The generator reads only
  \<^verbatim>\<open>skytterlag_id\<close> of the record; the filter reads only \<^verbatim>\<open>stevner\<close> and the
  \<^verbatim>\<open>date\<close> of each event.
\<close>

record stevne =
  id' :: string
  name :: string
  rsvpOpen :: bool
  attendees :: int
  maxAttendees :: int
  date :: string

record skytterlag =
  skytterlag_id :: string
  stevner :: "stevne list"

definition baseNames :: "string list" where
  "baseNames = [''Banestevne'', ''Kretsstevne'', ''Treningskveld'', ''Klubbmesterskap'']"

text \<open>The remainder operator \<^verbatim>\<open>%\<close>: the sign of the dividend, NaN from NaN or by 0.\<close>

definition jsRem :: "jsnum \<Rightarrow> jsnum \<Rightarrow> jsnum" where
  "jsRem a b =
     (case (a, b) of
        (Some x, Some y) \<Rightarrow> (if y = 0 then None else Some (sgn x * (\<bar>x\<bar> mod \<bar>y\<bar>)))
      | _ \<Rightarrow> None)"

text \<open>
  The body of the loop, at the local index \<open>i\<close>. \<open>today\<close> is what \<^verbatim>\<open>new Date()\<close>
  returned: the clock is an input of the generator. The position \<open>index\<close> of a record in
  the loaded array and the loop counter are natural numbers, so \<^verbatim>\<open>%\<close> is \<open>mod\<close> on them.
\<close>

definition stevneAt :: "int \<Rightarrow> jsdate \<Rightarrow> skytterlag \<Rightarrow> nat \<Rightarrow> nat \<Rightarrow> stevne" where
  "stevneAt tza today range' index i =
     (let name' = baseNames ! ((index + i) mod length baseNames);
          maxAttendees' = 40 + int ((index + i) mod 4) * 20;
          rsvpOpen' = ((index + i) mod 3 \<noteq> 0);
          attendees' =
            (if rsvpOpen' then 10 + (int (index * 7 + i * 13) mod (maxAttendees' - 10))
             else 1 + (int (index * 5 + i * 11) mod maxAttendees'));
          dayOffset = 3 + int ((index * 5 + i * 17) mod 120);
          d = setDate tza today (jsPlus (getDate today) (Some dayOffset));
          date' = formatDateLocal d
      in \<lparr>id' = skytterlag_id range' @ ''-'' @ showNat i,
          name = name',
          rsvpOpen = rsvpOpen',
          attendees = min attendees' maxAttendees',
          maxAttendees = maxAttendees',
          date = date'\<rparr>)"

text \<open>\<^verbatim>\<open>for (let i = 0; i < count; i++) events.push(...)\<close>, from \<open>i\<close> on.\<close>

function eventsLoop ::
  "int \<Rightarrow> jsdate \<Rightarrow> skytterlag \<Rightarrow> nat \<Rightarrow> jsnum \<Rightarrow> nat \<Rightarrow> stevne list \<Rightarrow> stevne list" where
  "eventsLoop tza today range' index count i events =
     (if jsLess (Some (int i)) count
      then eventsLoop tza today range' index count (i + 1)
             (events @ [stevneAt tza today range' index i])
      else events)"
  by pat_completeness auto
termination
  by (relation "measure (\<lambda>(tza, today, range', index, count, i, events).
                   case count of None \<Rightarrow> 0 | Some c \<Rightarrow> nat c - i)")
     (auto simp: jsLess_def split: option.splits)

declare eventsLoop.simps [simp del]

definition generateStevnerForRange ::
  "int \<Rightarrow> jsdate \<Rightarrow> skytterlag \<Rightarrow> nat \<Rightarrow> stevne list" where
  "generateStevnerForRange tza today range' index =
     (if index mod 2 \<noteq> 0 then []
      else
        (let count =
               jsPlus (Some 1)
                 (jsRem (jsPlus (charCodeAt0 (skytterlag_id range')) (Some (int index)))
                    (Some 2))
         in eventsLoop tza today range' index count 0 []))"

section \<open>The date-range filter\<close>

text \<open>
  \<open>startDate\<close> and \<open>endDate\<close> are the two bounds that the closure captures; an empty
  string is an absent bound, and an empty \<open>dateStr\<close> an absent date. Calling
  \<^verbatim>\<open>getTime\<close> or \<^verbatim>\<open>setHours\<close> on \<^verbatim>\<open>null\<close> raises a TypeError.
\<close>

definition isEventWithinRange :: "int \<Rightarrow> string \<Rightarrow> string \<Rightarrow> string \<Rightarrow> error + bool" where
  "isEventWithinRange tza startDate endDate dateStr =
     (if startDate = [] \<and> endDate = [] then Inr True
      else if dateStr = [] then Inr False
      else
        (case parseLocalDate tza dateStr of
           None \<Rightarrow> Inl TypeError
         | Some d \<Rightarrow>
             (if getTime tza d = None then Inr False
              else if startDate \<noteq> [] \<and>
                      jsLess (getTime tza d) (ToNumber tza (parseLocalDate tza startDate))
              then Inr False
              else if endDate \<noteq> [] then
                (case parseLocalDate tza endDate of
                   None \<Rightarrow> Inl TypeError
                 | Some e \<Rightarrow>
                     (if jsLess (getTime tza (setHoursEndOfDay tza e)) (getTime tza d)
                      then Inr False
                      else Inr True))
              else Inr True)))"

text \<open>
  \<^verbatim>\<open>xs.some(p)\<close> and \<^verbatim>\<open>xs.filter(p)\<close> with a predicate that can raise: \<^verbatim>\<open>some\<close>
  stops at the first element that satisfies \<open>p\<close>, and an exception ends either.
\<close>

fun some :: "('a \<Rightarrow> error + bool) \<Rightarrow> 'a list \<Rightarrow> error + bool" where
  "some p [] = Inr False"
| "some p (x # xs) =
     (case p x of
        Inl e \<Rightarrow> Inl e
      | Inr b \<Rightarrow> (if b then Inr True else some p xs))"

fun filterE :: "('a \<Rightarrow> error + bool) \<Rightarrow> 'a list \<Rightarrow> error + 'a list" where
  "filterE p [] = Inr []"
| "filterE p (x # xs) =
     (case p x of
        Inl e \<Rightarrow> Inl e
      | Inr b \<Rightarrow>
          (case filterE p xs of
             Inl e \<Rightarrow> Inl e
           | Inr ys \<Rightarrow> Inr (if b then x # ys else ys)))"

definition visibleRanges ::
  "int \<Rightarrow> string \<Rightarrow> string \<Rightarrow> skytterlag list \<Rightarrow> error + skytterlag list" where
  "visibleRanges tza startDate endDate ranges =
     (if startDate = [] \<and> endDate = [] then Inr ranges
      else filterE (\<lambda>r. some (\<lambda>ev. isEventWithinRange tza startDate endDate (date ev))
                          (stevner r)) ranges)"

section \<open>Well-formed dates\<close>

text \<open>
  The calendar fields of a valid Date: a month of the year, a day of that month, a time
  within the day, and a time value that a Date can hold.
\<close>

definition wellFormed :: "int \<Rightarrow> localtime \<Rightarrow> bool" where
  "wellFormed tza f =
     (0 \<le> month f \<and> month f \<le> 11
      \<and> 1 \<le> day f \<and> day f \<le> DaysInMonth (year f) (month f)
      \<and> 0 \<le> msec f \<and> msec f < msPerDay
      \<and> \<bar>timeValue tza f\<bar> \<le> 8640000000000000)"

text \<open>The day of a Date, counted from the epoch.\<close>

definition dayNumber :: "localtime \<Rightarrow> int" where
  "dayNumber f = MakeDay (year f) (month f) (day f)"

section \<open>Decimal numerals\<close>

lemma digit_nth:
  assumes "n < 10"
  shows "isDigit (''0123456789'' ! n)" and "digitValue (''0123456789'' ! n) = int n"
proof -
  from assms have "n \<in> {0, 1, 2, 3, 4, 5, 6, 7, 8, 9}" by auto
  then show "isDigit (''0123456789'' ! n)" and "digitValue (''0123456789'' ! n) = int n"
    by (auto simp: isDigit_def digitValue_def)
qed

lemma showNat_not_Nil: "showNat n \<noteq> []"
  by (subst showNat.simps) simp

lemma showNat_isDigit: "c \<in> set (showNat n) \<Longrightarrow> isDigit c"
proof (induction n arbitrary: c rule: showNat.induct)
  case (1 n)
  show ?case
  proof (cases "n < 10")
    case True
    with "1.prems" show ?thesis
      by (subst (asm) showNat.simps) (simp add: digit_nth)
  next
    case False
    with "1.prems" have "c \<in> set (showNat (n div 10)) \<or> c = ''0123456789'' ! (n mod 10)"
      by (subst (asm) showNat.simps) auto
    with False "1.IH" show ?thesis
      by (auto simp: digit_nth)
  qed
qed

lemma digitsValue_snoc: "digitsValue (Z @ [c]) = 10 * digitsValue Z + digitValue c"
  by (simp add: digitsValue_def)

lemma digitsValue_showNat: "digitsValue (showNat n) = int n"
proof (induction n rule: showNat.induct)
  case (1 n)
  show ?case
  proof (cases "n < 10")
    case True
    then show ?thesis
      by (subst showNat.simps) (simp add: digitsValue_def digit_nth)
  next
    case False
    then have "digitsValue (showNat n) = 10 * int (n div 10) + int (n mod 10)"
      using "1.IH" by (subst showNat.simps) (simp add: digitsValue_snoc digit_nth)
    then show ?thesis by arith
  qed
qed

lemma isDigit_plain: "isDigit c \<Longrightarrow> \<not> isWhiteSpace c \<and> c \<noteq> CHR ''+'' \<and> c \<noteq> CHR ''-''"
  by (auto simp: isDigit_def isWhiteSpace_def)

lemma isDigit_zero: "isDigit (CHR ''0'')"
  by (simp add: isDigit_def)

text \<open>A string of digits parses to its value: no white space, no sign, nothing left over.\<close>

lemma parseInt10_digits:
  assumes "s \<noteq> []" and "\<And>c. c \<in> set s \<Longrightarrow> isDigit c"
  shows "parseInt10 s = Some (digitsValue s)"
proof -
  from assms(1) obtain c cs where s: "s = c # cs" by (cases s) auto
  with assms(2) have c: "isDigit c" by simp
  have all: "takeWhile isDigit (c # cs) = c # cs"
    using assms(2) s by (simp add: takeWhile_eq_all_conv del: takeWhile.simps)
  from c have drop: "dropWhile isWhiteSpace (c # cs) = c # cs"
    by (simp add: isDigit_plain)
  have "digitPrefix s = s"
    unfolding digitPrefix_def s drop using c all by (simp add: isDigit_plain)
  moreover have "signOf s = 1"
    unfolding signOf_def s drop using c by (simp add: isDigit_plain)
  ultimately show ?thesis
    using assms(1) by (simp add: parseInt10_def)
qed

lemma digitsValue_zeros: "digitsValue (replicate k (CHR ''0'') @ s) = digitsValue s"
proof -
  have "foldl (\<lambda>a c. 10 * a + digitValue c) 0 (replicate k (CHR ''0'')) = 0"
    by (induction k) (simp_all add: digitValue_def)
  then show ?thesis by (simp add: digitsValue_def)
qed

lemma parseInt10_showNat: "parseInt10 (showNat n) = Some (int n)"
  by (simp add: parseInt10_digits showNat_not_Nil showNat_isDigit digitsValue_showNat)

lemma parseInt10_padStart2_showNat: "parseInt10 (padStart2 (showNat n)) = Some (int n)"
proof -
  have "parseInt10 (padStart2 (showNat n)) = Some (digitsValue (padStart2 (showNat n)))"
    by (rule parseInt10_digits)
      (auto simp: padStart2_def showNat_not_Nil showNat_isDigit isDigit_zero)
  then show ?thesis by (simp add: padStart2_def digitsValue_zeros digitsValue_showNat)
qed



section \<open>Splitting at the dashes\<close>

lemma splitOn_no_sep: "sep \<notin> set a \<Longrightarrow> splitOn sep a = [a]"
  by (induction a) auto

lemma splitOn_append: "sep \<notin> set a \<Longrightarrow> splitOn sep (a @ sep # rest) = a # splitOn sep rest"
  by (induction a) auto

lemma no_dash_showNat: "CHR ''-'' \<notin> set (showNat n)"
  using showNat_isDigit isDigit_plain by blast

lemma no_dash_padStart2: "CHR ''-'' \<notin> set s \<Longrightarrow> CHR ''-'' \<notin> set (padStart2 s)"
  by (auto simp: padStart2_def)

lemma formatDateLocal_nonneg:
  assumes "0 \<le> year f" and "0 \<le> month f" and "0 \<le> day f"
  shows "formatDateLocal (Date f) =
           showNat (nat (year f)) @ CHR ''-'' # padStart2 (showNat (nat (month f + 1)))
             @ CHR ''-'' # padStart2 (showNat (nat (day f)))"
  using assms
  by (simp add: formatDateLocal_def getFullYear_def getMonth_def getDate_def jsPlus_def
      ToString_def showInt_def)

lemma parts_formatDateLocal:
  assumes "0 \<le> year f" and "0 \<le> month f" and "0 \<le> day f"
  shows "map parseInt10 (splitOn (CHR ''-'') (formatDateLocal (Date f))) =
           [Some (year f), Some (month f + 1), Some (day f)]"
  using assms
  by (simp add: formatDateLocal_nonneg splitOn_append splitOn_no_sep no_dash_showNat
      no_dash_padStart2 parseInt10_showNat parseInt10_padStart2_showNat)

section \<open>Decoding from the parsed components\<close>

lemma parseLocalDate_parts:
  assumes "map parseInt10 (splitOn (CHR ''-'') s) = Some y # Some m # Some d # rest"
    and "y \<noteq> 0" and "m \<noteq> 0" and "d \<noteq> 0"
  shows "parseLocalDate tza s = Some (newDate tza y (m - 1) d)"
  unfolding parseLocalDate_def assms(1) using assms(2-) by (simp add: element_def falsy_def)




section \<open>Day numbers and the range of a Date\<close>

lemma rollDay_in_range: "1 \<le> d \<Longrightarrow> d \<le> DaysInMonth y m \<Longrightarrow> rollDay y m d = (y, m, d)"
  by (subst rollDay.simps) simp

lemma div_bounds: "(0::int) < k \<Longrightarrow> k * (a div k) \<le> a \<and> a < k * (a div k) + k"
  using mult_div_mod_eq [of k a] pos_mod_bound [of k a] pos_mod_sign [of k a] by linarith

lemma DayFromYear_linear_lower:
  fixes y a b c :: int
  assumes "y - 1969 < 4 * a + 4" and "100 * b \<le> y - 1901" and "y - 1601 < 400 * c + 400"
    and "100 \<le> y"
  shows "- 700000 \<le> 365 * (y - 1970) + a - b + c"
  using assms by (simp add: algebra_simps)

lemma DayFromYear_linear_upper:
  fixes y a b c :: int
  assumes "4 * a \<le> y - 1969" and "y - 1901 < 100 * b + 100" and "400 * c \<le> y - 1601"
    and "y \<le> 275000"
  shows "365 * (y - 1970) + a - b + c \<le> 99800000"
  using assms by (simp add: algebra_simps)

lemma DayFromYear_lower: "100 \<le> y \<Longrightarrow> - 700000 \<le> DayFromYear y"
  unfolding DayFromYear_def
  using div_bounds [of 4 "y - 1969"] div_bounds [of 100 "y - 1901"] div_bounds [of 400 "y - 1601"]
  by (intro DayFromYear_linear_lower) simp_all

lemma DayFromYear_upper: "y \<le> 275000 \<Longrightarrow> DayFromYear y \<le> 99800000"
  unfolding DayFromYear_def
  using div_bounds [of 4 "y - 1969"] div_bounds [of 100 "y - 1901"] div_bounds [of 400 "y - 1601"]
  by (intro DayFromYear_linear_upper) simp_all

lemma DayWithinYear_bounds: "0 \<le> DayWithinYear y m \<and> DayWithinYear y m \<le> 335"
  by (simp add: DayWithinYear_def)

lemma DaysInMonth_bounds: "28 \<le> DaysInMonth y m \<and> DaysInMonth y m \<le> 31"
  by (simp add: DaysInMonth_def)

lemma MakeDay_month:
  "0 \<le> m \<Longrightarrow> m \<le> 11 \<Longrightarrow> MakeDay y m d = DayFromYear y + DayWithinYear y m + d - 1"
  by (simp add: MakeDay_def)

lemma MakeDay_lower:
  assumes "100 \<le> y" and "0 \<le> m" and "m \<le> 11" and "1 \<le> d"
  shows "- 700000 \<le> MakeDay y m d"
  using assms DayFromYear_lower [of y] DayWithinYear_bounds [of y m]
  by (simp add: MakeDay_month)

lemma MakeDay_upper:
  assumes "y \<le> 275000" and "0 \<le> m" and "m \<le> 11" and "d \<le> 31"
  shows "MakeDay y m d \<le> 99900000"
  using assms DayFromYear_upper [of y] DayWithinYear_bounds [of y m]
  by (simp add: MakeDay_month)

lemma TimeClip_valid:
  assumes "- 700000 \<le> MakeDay (year f) (month f) (day f)"
    and "MakeDay (year f) (month f) (day f) * msPerDay + msec f - tza \<le> 8640000000000000"
    and "0 \<le> msec f" and "\<bar>tza\<bar> \<le> msPerDay"
  shows "TimeClip tza f = Date f"
proof -
  have "- 700000 * msPerDay \<le> MakeDay (year f) (month f) (day f) * msPerDay"
    using assms(1) by (simp add: msPerDay_def)
  with assms(2-) show ?thesis
    by (simp add: TimeClip_def timeValue_def msPerDay_def abs_le_iff)
qed

text \<open>
  Components that name a day of the calendar, in a year from 100 on, are kept as they
  are: nothing rolls over and the year is not read as two digits.
\<close>

lemma newDate_in_range:
  assumes "100 \<le> y" and "y \<le> 275000" and "0 \<le> m" and "m \<le> 11"
    and "1 \<le> d" and "d \<le> DaysInMonth y m" and "\<bar>tza\<bar> \<le> msPerDay"
  shows "newDate tza y m d = Date \<lparr>year = y, month = m, day = d, msec = 0\<rparr>"
proof -
  have d31: "d \<le> 31" using assms(6) DaysInMonth_bounds [of y m] by simp
  have "MakeDay y m d * msPerDay \<le> 99900000 * msPerDay"
    using MakeDay_upper [OF assms(2,3,4) d31] by (simp add: msPerDay_def)
  then have "TimeClip tza \<lparr>year = y, month = m, day = d, msec = 0\<rparr>
      = Date \<lparr>year = y, month = m, day = d, msec = 0\<rparr>"
    using MakeDay_lower [OF assms(1,3,4,5)] assms(7)
    by (intro TimeClip_valid) (simp_all add: msPerDay_def)
  with assms show ?thesis
    by (simp add: newDate_def rollDay_in_range)
qed


lemma MakeDay_2025_06: "MakeDay 2025 5 d = 20239 + d"
  by (simp add: MakeDay_def DayFromYear_def DayWithinYear_def InLeapYear_def)


section \<open>Rolling over keeps the day number\<close>

lemma div_step:
  fixes a k :: int
  assumes "0 < k"
  shows "(a + 1) div k = a div k + (if (a + 1) mod k = 0 then 1 else 0)"
proof -
  have a: "a = k * (a div k) + a mod k" by simp
  have r: "0 \<le> a mod k" "a mod k < k" using assms by simp_all
  show ?thesis
  proof (cases "a mod k + 1 < k")
    case True
    have eq: "a + 1 = k * (a div k) + (a mod k + 1)" using a by linarith
    have "(a + 1) div k = a div k"
      using r True by (intro int_div_pos_eq [OF eq]) simp_all
    moreover have "(a + 1) mod k = a mod k + 1"
      using r True by (intro int_mod_pos_eq [OF eq]) simp_all
    ultimately show ?thesis using r by simp
  next
    case False
    with r have k: "a mod k + 1 = k" by simp
    have "k * (a div k + 1) = k * (a div k) + k" by (simp add: ring_distribs)
    with mult_div_mod_eq [of k a] k have eq: "a + 1 = k * (a div k + 1) + 0" by linarith
    have "(a + 1) div k = a div k + 1"
      using assms by (intro int_div_pos_eq [OF eq]) simp_all
    moreover have "(a + 1) mod k = 0"
      using assms by (intro int_mod_pos_eq [OF eq]) simp_all
    ultimately show ?thesis by simp
  qed
qed

lemma mod_shift: "(y - c * k) mod k = y mod k" for y :: int
  by (metis mod_diff_eq mod_mult_self2_is_0 diff_zero mod_mod_trivial)

text \<open>A year has 365 days, and 366 when it is a leap year.\<close>

lemma DayFromYear_succ:
  "DayFromYear (y + 1) = DayFromYear y + (if InLeapYear y then 366 else 365)"
proof -
  have a: "(y + 1 - 1969) div 4 = (y - 1969) div 4 + (if y mod 4 = 0 then 1 else 0)"
    using div_step [of 4 "y - 1969"] mod_shift [of y 492 4] by (simp add: algebra_simps)
  have b: "(y + 1 - 1901) div 100 = (y - 1901) div 100 + (if y mod 100 = 0 then 1 else 0)"
    using div_step [of 100 "y - 1901"] mod_shift [of y 19 100] by (simp add: algebra_simps)
  have c: "(y + 1 - 1601) div 400 = (y - 1601) div 400 + (if y mod 400 = 0 then 1 else 0)"
    using div_step [of 400 "y - 1601"] mod_shift [of y 4 400] by (simp add: algebra_simps)
  have d: "y mod 100 = 0" if "y mod 400 = 0"
  proof -
    have "(100::int) dvd 400" by simp
    moreover from that have "400 dvd y" by (simp add: mod_eq_0_iff_dvd)
    ultimately have "100 dvd y" by (rule dvd_trans)
    then show ?thesis by (simp add: mod_eq_0_iff_dvd)
  qed
  have e: "y mod 4 = 0" if "y mod 100 = 0"
  proof -
    have "(4::int) dvd 100" by simp
    moreover from that have "100 dvd y" by (simp add: mod_eq_0_iff_dvd)
    ultimately have "4 dvd y" by (rule dvd_trans)
    then show ?thesis by (simp add: mod_eq_0_iff_dvd)
  qed
  show ?thesis
    unfolding DayFromYear_def a b c InLeapYear_def using d e by auto
qed

lemma month_cases:
  fixes m :: int
  assumes "0 \<le> m" and "m \<le> 11"
  shows "m = 0 \<or> m = 1 \<or> m = 2 \<or> m = 3 \<or> m = 4 \<or> m = 5 \<or> m = 6 \<or> m = 7 \<or> m = 8
    \<or> m = 9 \<or> m = 10 \<or> m = 11"
proof -
  have a: "m = 0 \<or> m = 1 \<or> m = 2 \<or> 3 \<le> m" using assms(1) by linarith
  have b: "m = 3 \<or> m = 4 \<or> m = 5 \<or> 6 \<le> m" if "3 \<le> m" using that by linarith
  have c: "m = 6 \<or> m = 7 \<or> m = 8 \<or> 9 \<le> m" if "6 \<le> m" using that by linarith
  have d: "m = 9 \<or> m = 10 \<or> m = 11" if "9 \<le> m" using that assms(2) by linarith
  from a b c d show ?thesis by blast
qed

lemma MakeDay_next_month:
  assumes "0 \<le> m" and "m \<le> 11"
  shows "MakeDay (if 11 \<le> m then y + 1 else y) (if 11 \<le> m then 0 else m + 1) d
           = MakeDay y m (d + DaysInMonth y m)"
  using month_cases [OF assms]
  by (elim disjE)
    (simp_all add: MakeDay_month DayWithinYear_def DaysInMonth_def DayFromYear_succ)

lemma MakeDay_previous_month:
  assumes "0 \<le> m" and "m \<le> 11"
  shows "MakeDay (if m \<le> 0 then y - 1 else y) (if m \<le> 0 then 11 else m - 1)
            (d + DaysInMonth (if m \<le> 0 then y - 1 else y) (if m \<le> 0 then 11 else m - 1))
           = MakeDay y m d"
proof -
  let ?y = "if m \<le> 0 then y - 1 else y" and ?m = "if m \<le> 0 then 11 else m - 1"
  have "0 \<le> ?m" "?m \<le> 11" using assms by simp_all
  from MakeDay_next_month [OF this, of ?y d, symmetric] assms show ?thesis
    by (simp split: if_splits)
qed

text \<open>
  What \<open>rollDay\<close> returns is a day of the calendar, and it is the day that ECMAScript's
  \<^verbatim>\<open>MakeDay\<close> counts for the components before they rolled over.
\<close>

lemma rollDay_MakeDay:
  assumes "0 \<le> m" and "m \<le> 11" and "rollDay y m d = (y', m', d')"
  shows "MakeDay y' m' d' = MakeDay y m d \<and> 0 \<le> m' \<and> m' \<le> 11
           \<and> 1 \<le> d' \<and> d' \<le> DaysInMonth y' m'"
  using assms
proof (induction y m d rule: rollDay.induct)
  case (1 y m dt)
  show ?case
  proof (cases "dt < 1")
    case True
    let ?y = "if m \<le> 0 then y - 1 else y" and ?m = "if m \<le> 0 then 11 else m - 1"
    have m: "0 \<le> ?m" "?m \<le> 11" using "1.prems" by simp_all
    have "rollDay ?y ?m (dt + DaysInMonth ?y ?m) = (y', m', d')"
      using "1.prems"(3) True by (subst (asm) rollDay.simps) (simp add: Let_def)
    from "1.IH"(1) [OF True refl refl m this]
      MakeDay_previous_month [OF "1.prems"(1,2), of y dt]
    show ?thesis by simp
  next
    case False
    show ?thesis
    proof (cases "DaysInMonth y m < dt")
      case True
      let ?y = "if 11 \<le> m then y + 1 else y" and ?m = "if 11 \<le> m then 0 else m + 1"
      have m: "0 \<le> ?m" "?m \<le> 11" using "1.prems" by simp_all
      have "rollDay ?y ?m (dt - DaysInMonth y m) = (y', m', d')"
        using "1.prems"(3) True False by (subst (asm) rollDay.simps) (simp add: Let_def)
      from "1.IH"(2) [OF False True refl refl m this]
        MakeDay_next_month [OF "1.prems"(1,2), of y "dt - DaysInMonth y m"]
      show ?thesis by simp
    next
      case in_month: False
      with False "1.prems" show ?thesis
        by (subst (asm) rollDay.simps) simp
    qed
  qed
qed

lemma MakeDay_normal_month: "MakeDay (y + m div 12) (m mod 12) d = MakeDay y m d"
  by (simp add: MakeDay_def)

text \<open>
  \<^verbatim>\<open>new Date(y, m, d)\<close> is a well-formed Date with the time value that ECMAScript
  computes from the components, or it is invalid because that time value is out of range.
\<close>

lemma newDate_cases:
  fixes y m d tza :: int
  defines "yr \<equiv> (if 0 \<le> y \<and> y \<le> 99 then 1900 + y else y)"
  obtains (invalid) "newDate tza y m d = InvalidDate"
      and "8640000000000000 < \<bar>MakeDay yr m d * msPerDay - tza\<bar>"
  | (valid) f where "newDate tza y m d = Date f" and "wellFormed tza f" and "msec f = 0"
      and "timeValue tza f = MakeDay yr m d * msPerDay - tza"
proof -
  obtain y' m' d' where roll: "rollDay (yr + m div 12) (m mod 12) d = (y', m', d')"
    by (metis prod_cases3)
  have "0 \<le> m mod 12" "m mod 12 \<le> 11" by simp_all
  from rollDay_MakeDay [OF this roll]
  have day: "MakeDay y' m' d' = MakeDay yr m d" and range: "0 \<le> m'" "m' \<le> 11" "1 \<le> d'"
    "d' \<le> DaysInMonth y' m'"
    by (simp_all add: MakeDay_normal_month)
  let ?f = "\<lparr>year = y', month = m', day = d', msec = 0\<rparr>"
  have new: "newDate tza y m d = TimeClip tza ?f"
    using roll by (simp add: newDate_def yr_def)
  have tv: "timeValue tza ?f = MakeDay yr m d * msPerDay - tza"
    using day by (simp add: timeValue_def)
  show thesis
  proof (cases "\<bar>timeValue tza ?f\<bar> \<le> 8640000000000000")
    case True
    with range have "wellFormed tza ?f" by (simp add: wellFormed_def msPerDay_def)
    moreover from True new have "newDate tza y m d = Date ?f" by (simp add: TimeClip_def)
    ultimately show ?thesis using tv by (intro valid [of ?f]) simp_all
  next
    case False
    with new tv show ?thesis by (intro invalid) (simp_all add: TimeClip_def)
  qed
qed

section \<open>The loop of the generator\<close>

text \<open>The loop appends the event of each local index below \<open>count\<close>, and none for NaN.\<close>

lemma eventsLoop_map:
  "eventsLoop tza today r index count i events =
     events @ map (stevneAt tza today r index)
       [i ..< (case count of None \<Rightarrow> 0 | Some c \<Rightarrow> nat c)]"
proof (induction tza today r index count i events rule: eventsLoop.induct)
  case (1 tza today r index count i events)
  show ?case
  proof (cases "jsLess (Some (int i)) count")
    case True
    then obtain c where c: "count = Some c" and lt: "int i < c"
      by (auto simp: jsLess_def split: option.splits)
    then have "[i ..< nat c] = i # [i + 1 ..< nat c]"
      by (simp add: upt_conv_Cons)
    with True c "1.IH" show ?thesis
      by (subst eventsLoop.simps) simp
  next
    case False
    then have "[i ..< (case count of None \<Rightarrow> 0 | Some c \<Rightarrow> nat c)] = []"
      by (auto simp: jsLess_def split: option.splits)
    with False show ?thesis
      by (subst eventsLoop.simps) simp
  qed
qed

lemma generate_odd: "odd index \<Longrightarrow> generateStevnerForRange tza today r index = []"
  by (simp add: generateStevnerForRange_def odd_iff_mod_2_eq_one)

lemma generate_even:
  assumes "even index"
  shows "generateStevnerForRange tza today r index =
           map (stevneAt tza today r index)
             [0 ..< (case skytterlag_id r of
                       [] \<Rightarrow> 0
                     | c # _ \<Rightarrow> 1 + (of_char c + index) mod 2)]"
proof (cases "skytterlag_id r")
  case Nil
  with assms show ?thesis
    by (simp add: generateStevnerForRange_def eventsLoop_map charCodeAt0_def jsPlus_def
        jsRem_def)
next
  case (Cons c cs)
  have "nat (1 + sgn (int (of_char c) + int index) * (\<bar>int (of_char c) + int index\<bar> mod 2))
      = 1 + (of_char c + index) mod 2"
    by (cases "of_char c + index = 0")
      (simp_all add: nat_add_distrib nat_mod_distrib sgn_if flip: of_nat_add)
  with assms Cons show ?thesis
    by (simp add: generateStevnerForRange_def eventsLoop_map charCodeAt0_def jsPlus_def
        jsRem_def)
qed

lemma stevneAt_attendees:
  "0 \<le> attendees (stevneAt tza today r index i) \<and>
   attendees (stevneAt tza today r index i) \<le> maxAttendees (stevneAt tza today r index i) \<and>
   maxAttendees (stevneAt tza today r index i) \<in> {40, 60, 80, 100}"
proof -
  have "(index + i) mod 4 < 4" by simp
  then have "(index + i) mod 4 \<in> {0, 1, 2, 3}" by auto
  then show ?thesis
    by (auto simp: stevneAt_def Let_def)
qed





section \<open>The filter on particular dates\<close>

lemma parts_not_a_date:
  "map parseInt10 (splitOn (CHR ''-'') ''not-a-date'') = [None, None, None]"
  by code_simp

lemma parseLocalDate_not_a_date: "parseLocalDate tza ''not-a-date'' = None"
  unfolding parseLocalDate_def parts_not_a_date by (simp add: element_def falsy_def)

lemma parts_0614:
  "map parseInt10 (splitOn (CHR ''-'') ''2025-06-14'') = [Some 2025, Some 6, Some 14]"
  by code_simp

lemma parts_0615:
  "map parseInt10 (splitOn (CHR ''-'') ''2025-06-15'') = [Some 2025, Some 6, Some 15]"
  by code_simp

lemma parts_0616:
  "map parseInt10 (splitOn (CHR ''-'') ''2025-06-16'') = [Some 2025, Some 6, Some 16]"
  by code_simp

lemma parse_0614:
  "\<bar>tza\<bar> \<le> msPerDay \<Longrightarrow>
   parseLocalDate tza ''2025-06-14'' = Some (Date \<lparr>year = 2025, month = 5, day = 14, msec = 0\<rparr>)"
  by (simp add: parseLocalDate_parts [OF parts_0614] newDate_in_range DaysInMonth_def)

lemma parse_0615:
  "\<bar>tza\<bar> \<le> msPerDay \<Longrightarrow>
   parseLocalDate tza ''2025-06-15'' = Some (Date \<lparr>year = 2025, month = 5, day = 15, msec = 0\<rparr>)"
  by (simp add: parseLocalDate_parts [OF parts_0615] newDate_in_range DaysInMonth_def)

lemma parse_0616:
  "\<bar>tza\<bar> \<le> msPerDay \<Longrightarrow>
   parseLocalDate tza ''2025-06-16'' = Some (Date \<lparr>year = 2025, month = 5, day = 16, msec = 0\<rparr>)"
  by (simp add: parseLocalDate_parts [OF parts_0616] newDate_in_range DaysInMonth_def)





lemma parts_2025_jan01:
  "map parseInt10 (splitOn (CHR ''-'') ''2025-01-01'') = [Some 2025, Some 1, Some 1]"
  by code_simp

lemma parts_2025_dec31:
  "map parseInt10 (splitOn (CHR ''-'') ''2025-12-31'') = [Some 2025, Some 12, Some 31]"
  by code_simp

text \<open>An event of 15 June 2025 is in the interval from 1 January to 31 December 2025.\<close>

lemma isEventWithinRange_in_2025:
  assumes "\<bar>tza\<bar> \<le> msPerDay"
  shows "isEventWithinRange tza ''2025-01-01'' ''2025-12-31'' ''2025-06-15'' = Inr True"
proof -
  have s: "parseLocalDate tza ''2025-01-01''
      = Some (Date \<lparr>year = 2025, month = 0, day = 1, msec = 0\<rparr>)"
    using assms
    by (simp add: parseLocalDate_parts [OF parts_2025_jan01] newDate_in_range DaysInMonth_def)
  have e: "parseLocalDate tza ''2025-12-31''
      = Some (Date \<lparr>year = 2025, month = 11, day = 31, msec = 0\<rparr>)"
    using assms
    by (simp add: parseLocalDate_parts [OF parts_2025_dec31] newDate_in_range DaysInMonth_def)
  have days: "MakeDay 2025 0 1 = 20089" "MakeDay 2025 5 15 = 20254" "MakeDay 2025 11 31 = 20453"
    by (simp_all add: MakeDay_def DayFromYear_def DayWithinYear_def InLeapYear_def)
  show ?thesis
    using assms
    by (simp add: isEventWithinRange_def parse_0615 s e getTime_def ToNumber_def jsLess_def
        setHoursEndOfDay_def TimeClip_def timeValue_def days msPerDay_def)
qed

section \<open>Visibility when no event raises\<close>

lemma some_no_raise:
  assumes "\<And>x. x \<in> set xs \<Longrightarrow> p x \<noteq> Inl TypeError"
  shows "some p xs = Inr (\<exists>x \<in> set xs. p x = Inr True)"
  using assms
proof (induction xs)
  case Nil
  then show ?case by simp
next
  case (Cons x xs)
  from Cons.prems [of x] obtain b where b: "p x = Inr b"
    by (cases "p x") (auto intro: error.exhaust)
  with Cons show ?case by (cases b) auto
qed

lemma filterE_no_raise:
  assumes "\<And>x. x \<in> set xs \<Longrightarrow> \<exists>b. p x = Inr b"
  shows "filterE p xs = Inr (filter (\<lambda>x. p x = Inr True) xs)"
  using assms
proof (induction xs)
  case Nil
  then show ?case by simp
next
  case (Cons x xs)
  from Cons.prems [of x] obtain b where b: "p x = Inr b" by auto
  with Cons show ?case by (cases b) auto
qed

lemma visibleRanges_no_filter: "visibleRanges tza [] [] ranges = Inr ranges"
  by (simp add: visibleRanges_def)

text \<open>
  With a bound present, and when no date that is looked at makes the filter raise, the
  visible ranges are those with an event in the interval, in their order.
\<close>

lemma visibleRanges_no_raise:
  assumes "startDate \<noteq> [] \<or> endDate \<noteq> []"
    and "\<And>r ev. r \<in> set ranges \<Longrightarrow> ev \<in> set (stevner r) \<Longrightarrow>
           isEventWithinRange tza startDate endDate (date ev) \<noteq> Inl TypeError"
  shows "visibleRanges tza startDate endDate ranges =
           Inr (filter (\<lambda>r. \<exists>ev \<in> set (stevner r).
                   isEventWithinRange tza startDate endDate (date ev) = Inr True) ranges)"
proof -
  let ?p = "\<lambda>ev. isEventWithinRange tza startDate endDate (date ev)"
  have one: "\<And>r. r \<in> set ranges \<Longrightarrow>
      some ?p (stevner r) = Inr (\<exists>ev \<in> set (stevner r). ?p ev = Inr True)"
    using assms(2) by (intro some_no_raise) blast
  then have "filterE (\<lambda>r. some ?p (stevner r)) ranges
     = Inr (filter (\<lambda>r. some ?p (stevner r) = Inr True) ranges)"
    by (intro filterE_no_raise) simp
  also have "filter (\<lambda>r. some ?p (stevner r) = Inr True) ranges
     = filter (\<lambda>r. \<exists>ev \<in> set (stevner r). ?p ev = Inr True) ranges"
    using one by (intro filter_cong) simp_all
  finally show ?thesis
    using assms(1) by (auto simp: visibleRanges_def)
qed

section \<open>The codec\<close>

text \<open>
  The canonical string of a date with a positive year decodes to \<^verbatim>\<open>new Date\<close> of its
  year, month and day.
\<close>

lemma parseLocalDate_formatDateLocal:
  assumes "1 \<le> year f" and "0 \<le> month f" and "1 \<le> day f"
  shows "parseLocalDate tza (formatDateLocal (Date f))
           = Some (newDate tza (year f) (month f) (day f))"
proof -
  have parts: "map parseInt10 (splitOn (CHR ''-'') (formatDateLocal (Date f))) =
      [Some (year f), Some (month f + 1), Some (day f)]"
    using assms by (intro parts_formatDateLocal) simp_all
  have "parseLocalDate tza (formatDateLocal (Date f)) =
      Some (newDate tza (year f) (month f + 1 - 1) (day f))"
    using assms by (intro parseLocalDate_parts [OF parts]) simp_all
  then show ?thesis by simp
qed

text \<open>From the year 100 on, \<^verbatim>\<open>new Date\<close> of the fields of a date is its local midnight.\<close>

lemma newDate_wellFormed:
  assumes "wellFormed tza f" and "\<bar>tza\<bar> \<le> msPerDay" and "100 \<le> year f"
  shows "newDate tza (year f) (month f) (day f) = Date (f\<lparr>msec := 0\<rparr>)"
proof -
  from assms(1) have m: "0 \<le> month f" "month f \<le> 11" and d: "1 \<le> day f"
    "day f \<le> DaysInMonth (year f) (month f)" and ms: "0 \<le> msec f"
    and clip: "timeValue tza f \<le> 8640000000000000"
    by (simp_all add: wellFormed_def abs_le_iff)
  have "rollDay (year f) (month f) (day f) = (year f, month f, day f)"
    using d by (rule rollDay_in_range)
  then have "newDate tza (year f) (month f) (day f)
      = TimeClip tza \<lparr>year = year f, month = month f, day = day f, msec = 0\<rparr>"
    using assms(3) m by (simp add: newDate_def)
  also have "\<lparr>year = year f, month = month f, day = day f, msec = 0\<rparr> = f\<lparr>msec := 0\<rparr>"
    by simp
  also have "TimeClip tza (f\<lparr>msec := 0\<rparr>) = Date (f\<lparr>msec := 0\<rparr>)"
    using MakeDay_lower [OF assms(3) m d(1)] clip ms assms(2)
    by (intro TimeClip_valid) (simp_all add: timeValue_def)
  finally show ?thesis .
qed

text \<open>
  Claim C2, as amended. For every valid local date from the year 100 on, with any month,
  day and time of day, decoding what \<^verbatim>\<open>formatDateLocal\<close> encoded gives local midnight
  of the same year, month and day. (The time zone offset is at most a day.)
\<close>

theorem roundtrip_from_year_100:
  assumes "wellFormed tza f" and "\<bar>tza\<bar> \<le> msPerDay" and "100 \<le> year f"
  shows "parseLocalDate tza (formatDateLocal (Date f)) = Some (Date (f\<lparr>msec := 0\<rparr>))"
proof -
  from assms(1) have "0 \<le> month f" and "1 \<le> day f"
    by (simp_all add: wellFormed_def)
  with assms(3) have "parseLocalDate tza (formatDateLocal (Date f))
      = Some (newDate tza (year f) (month f) (day f))"
    by (intro parseLocalDate_formatDateLocal) simp_all
  also have "newDate tza (year f) (month f) (day f) = Date (f\<lparr>msec := 0\<rparr>)"
    using assms by (rule newDate_wellFormed)
  finally show ?thesis .
qed

text \<open>The theorem at 2025-06-15, 12:34:56.789, one hour east of Greenwich.\<close>

theorem roundtrip_from_year_100_witness:
  "wellFormed 3600000 \<lparr>year = 2025, month = 5, day = 15, msec = 45296789\<rparr>
   \<and> \<bar>3600000\<bar> \<le> msPerDay
   \<and> 100 \<le> year \<lparr>year = 2025, month = 5, day = 15, msec = 45296789\<rparr>
   \<and> parseLocalDate 3600000
        (formatDateLocal (Date \<lparr>year = 2025, month = 5, day = 15, msec = 45296789\<rparr>))
      = Some (Date \<lparr>year = 2025, month = 5, day = 15, msec = 0\<rparr>)"
proof -
  let ?f = "\<lparr>year = 2025, month = 5, day = 15, msec = 45296789\<rparr>"
  have h1: "wellFormed 3600000 ?f"
    by (simp add: wellFormed_def DaysInMonth_def timeValue_def MakeDay_2025_06 msPerDay_def)
  have h2: "\<bar>3600000\<bar> \<le> msPerDay" by (simp add: msPerDay_def)
  have h3: "100 \<le> year ?f" by simp
  from roundtrip_from_year_100 [OF h1 h2 h3]
  have "parseLocalDate 3600000 (formatDateLocal (Date ?f))
      = Some (Date \<lparr>year = 2025, month = 5, day = 15, msec = 0\<rparr>)"
    by simp
  with h1 h2 h3 show ?thesis by blast
qed

text \<open>
  The claim as stated, for any year, fails below the year 100: 5 January of the year 50
  is encoded as \<open>50-01-05\<close> and decoded as 5 January 1950, and 5 January of the year 0 is
  encoded as \<open>0-01-05\<close> and decoded as \<^verbatim>\<open>null\<close>, the year being falsy.
\<close>

theorem roundtrip_small_year_counterexample:
  "wellFormed 3600000 \<lparr>year = 50, month = 0, day = 5, msec = 0\<rparr>
   \<and> parseLocalDate 3600000 (formatDateLocal (Date \<lparr>year = 50, month = 0, day = 5, msec = 0\<rparr>))
      = Some (Date \<lparr>year = 1950, month = 0, day = 5, msec = 0\<rparr>)
   \<and> wellFormed 3600000 \<lparr>year = 0, month = 0, day = 5, msec = 0\<rparr>
   \<and> parseLocalDate 3600000 (formatDateLocal (Date \<lparr>year = 0, month = 0, day = 5, msec = 0\<rparr>))
      = None"
  by code_simp

section \<open>The generator\<close>

text \<open>
  Claim C4. For every range record and every odd index, the generator returns the empty
  sequence.
\<close>

theorem parity_gate: "odd index \<Longrightarrow> generateStevnerForRange tza today r index = []"
  by (simp add: generateStevnerForRange_def odd_iff_mod_2_eq_one)

theorem parity_gate_witness:
  "odd (1::nat)
   \<and> generateStevnerForRange 3600000
        (Date \<lparr>year = 2025, month = 0, day = 1, msec = 43200000\<rparr>)
        \<lparr>skytterlag_id = ''ABC'', stevner = []\<rparr> 1 = []"
proof -
  have h: "odd (1::nat)" by simp
  from parity_gate [OF h] h show ?thesis by blast
qed

text \<open>
  Claim C3, as amended. For every even index, if the identifier of the range is the empty
  string, its first character code is NaN; the generator does not raise (it is a total
  function to lists) and returns the empty sequence.
\<close>

theorem empty_id_yields_no_events:
  assumes "skytterlag_id r = []" and "even index"
  shows "charCodeAt0 (skytterlag_id r) = None \<and> generateStevnerForRange tza today r index = []"
  using assms by (simp add: generate_even charCodeAt0_def)

theorem empty_id_yields_no_events_witness:
  "skytterlag_id \<lparr>skytterlag_id = [], stevner = []\<rparr> = [] \<and> even (0::nat)
   \<and> charCodeAt0 (skytterlag_id \<lparr>skytterlag_id = [], stevner = []\<rparr>) = None
   \<and> generateStevnerForRange 3600000
        (Date \<lparr>year = 2025, month = 0, day = 1, msec = 43200000\<rparr>)
        \<lparr>skytterlag_id = [], stevner = []\<rparr> 0 = []"
proof -
  have h1: "skytterlag_id \<lparr>skytterlag_id = [], stevner = []\<rparr> = []" by simp
  have h2: "even (0::nat)" by simp
  from empty_id_yields_no_events [OF h1 h2] h1 h2 show ?thesis by blast
qed

text \<open>
  The claim as stated fails at the empty identifier and index 0: the first character code
  is not 0, and the number of events is not \<open>1 + (0 + 0) mod 2\<close>.
\<close>

theorem empty_id_counterexample:
  "charCodeAt0 (skytterlag_id \<lparr>skytterlag_id = [], stevner = []\<rparr>) \<noteq> Some 0
   \<and> length (generateStevnerForRange 3600000
        (Date \<lparr>year = 2025, month = 0, day = 1, msec = 43200000\<rparr>)
        \<lparr>skytterlag_id = [], stevner = []\<rparr> 0) \<noteq> 1 + (0 + 0) mod 2"
  by code_simp

text \<open>
  Claim C5. For the range with identifier \<open>ABC\<close> at index 0, whatever the clock and its
  other fields, the generator produces \<open>1 + (65 + 0) mod 2 = 2\<close> events, with the
  identifiers \<open>ABC-0\<close> and \<open>ABC-1\<close> and the names at the positions \<open>0 mod 4\<close> and
  \<open>1 mod 4\<close> of the list of labels.
\<close>

theorem scenario_ABC:
  "length (generateStevnerForRange tza today \<lparr>skytterlag_id = ''ABC'', stevner = evs\<rparr> 0)
     = 1 + (65 + 0) mod 2
   \<and> map id' (generateStevnerForRange tza today \<lparr>skytterlag_id = ''ABC'', stevner = evs\<rparr> 0)
     = [''ABC-0'', ''ABC-1'']
   \<and> map name (generateStevnerForRange tza today \<lparr>skytterlag_id = ''ABC'', stevner = evs\<rparr> 0)
     = [baseNames ! (0 mod 4), baseNames ! (1 mod 4)]
   \<and> [baseNames ! (0 mod 4), baseNames ! (1 mod 4)] = [''Banestevne'', ''Kretsstevne'']"
  by (simp add: generate_even stevneAt_def Let_def upt_rec showNat.simps baseNames_def)

text \<open>
  Claim C6. Every event that the generator produces, for any range and any index, has
  between 0 and \<open>maxAttendees\<close> attendees, and \<open>maxAttendees\<close> is 40, 60, 80 or 100.
\<close>

theorem attendee_invariant:
  "\<forall>ev \<in> set (generateStevnerForRange tza today r index).
     0 \<le> attendees ev \<and> attendees ev \<le> maxAttendees ev
     \<and> maxAttendees ev \<in> {40, 60, 80, 100}"
proof (cases "even index")
  case True
  then show ?thesis
    using stevneAt_attendees by (auto simp: generate_even simp del: upt_Suc)
next
  case False
  then show ?thesis
    by (simp add: generate_odd)
qed

text \<open>The theorem at the second of the two events of \<open>ABC\<close> at index 0.\<close>

theorem attendee_invariant_witness:
  "length (generateStevnerForRange 3600000
      (Date \<lparr>year = 2025, month = 0, day = 1, msec = 43200000\<rparr>)
      \<lparr>skytterlag_id = ''ABC'', stevner = []\<rparr> 0) = 2
   \<and> 0 \<le> attendees (generateStevnerForRange 3600000
          (Date \<lparr>year = 2025, month = 0, day = 1, msec = 43200000\<rparr>)
          \<lparr>skytterlag_id = ''ABC'', stevner = []\<rparr> 0 ! 1)
   \<and> attendees (generateStevnerForRange 3600000
          (Date \<lparr>year = 2025, month = 0, day = 1, msec = 43200000\<rparr>)
          \<lparr>skytterlag_id = ''ABC'', stevner = []\<rparr> 0 ! 1)
       \<le> maxAttendees (generateStevnerForRange 3600000
          (Date \<lparr>year = 2025, month = 0, day = 1, msec = 43200000\<rparr>)
          \<lparr>skytterlag_id = ''ABC'', stevner = []\<rparr> 0 ! 1)
   \<and> maxAttendees (generateStevnerForRange 3600000
          (Date \<lparr>year = 2025, month = 0, day = 1, msec = 43200000\<rparr>)
          \<lparr>skytterlag_id = ''ABC'', stevner = []\<rparr> 0 ! 1) \<in> {40, 60, 80, 100}"
proof -
  let ?evs = "generateStevnerForRange 3600000
      (Date \<lparr>year = 2025, month = 0, day = 1, msec = 43200000\<rparr>)
      \<lparr>skytterlag_id = ''ABC'', stevner = []\<rparr> 0"
  have len: "length ?evs = 2"
    by (simp add: generate_even upt_rec)
  then have "?evs ! 1 \<in> set ?evs"
    by (intro nth_mem) simp
  with attendee_invariant [of 3600000
      "Date \<lparr>year = 2025, month = 0, day = 1, msec = 43200000\<rparr>"
      "\<lparr>skytterlag_id = ''ABC'', stevner = []\<rparr>" 0] len
  show ?thesis by blast
qed




section \<open>The filter\<close>

text \<open>
  When a bound is present and the date of the event is not empty, a date that decodes to
  \<^verbatim>\<open>null\<close> makes the filter raise: \<^verbatim>\<open>getTime\<close> is called on \<^verbatim>\<open>null\<close>.
\<close>

lemma isEventWithinRange_null_raises:
  assumes "startDate \<noteq> [] \<or> endDate \<noteq> []" and "dateStr \<noteq> []"
    and "parseLocalDate tza dateStr = None"
  shows "isEventWithinRange tza startDate endDate dateStr = Inl TypeError"
  using assms by (auto simp: isEventWithinRange_def)

lemma formatDateLocal_not_Nil: "formatDateLocal dt \<noteq> []"
  by (simp add: formatDateLocal_def)

text \<open>
  On the canonical strings of three dates from the year 100 on, the filter compares days:
  it holds exactly when the day of the event is not before the day of the start bound and
  not after the day of the end bound. (The last millisecond of the end day is a time
  that a Date can hold.)
\<close>

lemma isEventWithinRange_calendar_days:
  assumes tza: "\<bar>tza\<bar> \<le> msPerDay"
    and s: "wellFormed tza s" "100 \<le> year s"
    and d: "wellFormed tza d" "100 \<le> year d"
    and e: "wellFormed tza (e\<lparr>msec := msPerDay - 1\<rparr>)" "100 \<le> year e"
  shows "isEventWithinRange tza (formatDateLocal (Date s)) (formatDateLocal (Date e))
           (formatDateLocal (Date d))
         = Inr (dayNumber s \<le> dayNumber d \<and> dayNumber d \<le> dayNumber e)"
proof -
  have e_wf: "wellFormed tza (e\<lparr>msec := 0\<rparr>)"
  proof -
    from e have "0 \<le> month e" "month e \<le> 11" "1 \<le> day e"
      by (simp_all add: wellFormed_def)
    from MakeDay_lower [OF e(2) this] e(1) tza show ?thesis
      by (simp add: wellFormed_def timeValue_def msPerDay_def abs_le_iff)
  qed
  have ps: "parseLocalDate tza (formatDateLocal (Date s)) = Some (Date (s\<lparr>msec := 0\<rparr>))"
    using s tza newDate_wellFormed [of tza s]
    by (simp add: parseLocalDate_formatDateLocal wellFormed_def)
  have pd: "parseLocalDate tza (formatDateLocal (Date d)) = Some (Date (d\<lparr>msec := 0\<rparr>))"
    using d tza newDate_wellFormed [of tza d]
    by (simp add: parseLocalDate_formatDateLocal wellFormed_def)
  have pe: "parseLocalDate tza (formatDateLocal (Date e)) = Some (Date (e\<lparr>msec := 0\<rparr>))"
    using e tza newDate_wellFormed [OF e_wf]
    by (simp add: parseLocalDate_formatDateLocal wellFormed_def)
  have clip: "TimeClip tza (e\<lparr>msec := 86399999\<rparr>) = Date (e\<lparr>msec := 86399999\<rparr>)"
    using e(1) by (simp add: TimeClip_def wellFormed_def msPerDay_def)
  show ?thesis
    by (simp add: isEventWithinRange_def formatDateLocal_not_Nil ps pd pe getTime_def
        ToNumber_def jsLess_def setHoursEndOfDay_def clip timeValue_def dayNumber_def
        msPerDay_def)
qed

text \<open>
  Claim C1 says that a date that is not empty and does not decode is excluded under an
  active filter: the filter returns false and does not raise. The code raises instead, at
  the input of the claim: with the bounds \<open>2025-01-01\<close> and \<open>2025-12-31\<close>, the date
  \<open>not-a-date\<close> decodes to \<^verbatim>\<open>null\<close> and the filter ends in a TypeError.
\<close>

theorem isEventWithinRange_invalid_date_raises:
  "isEventWithinRange tza ''2025-01-01'' ''2025-12-31'' ''not-a-date'' = Inl TypeError"
  by (simp add: isEventWithinRange_def parseLocalDate_not_a_date)

text \<open>
  Claim C7. With both bounds at \<open>2025-06-15\<close>, an event of that day is in the interval,
  an event of the day before is not, and an event of the day after is not: the start
  bound counts from the start of its day and the end bound through the end of its day.
  (The time zone offset is at most a day.)
\<close>

theorem inclusive_boundaries:
  assumes "\<bar>tza\<bar> \<le> msPerDay"
  shows "isEventWithinRange tza ''2025-06-15'' ''2025-06-15'' ''2025-06-15'' = Inr True
       \<and> isEventWithinRange tza ''2025-06-15'' ''2025-06-15'' ''2025-06-14'' = Inr False
       \<and> isEventWithinRange tza ''2025-06-15'' ''2025-06-15'' ''2025-06-16'' = Inr False"
proof -
  have a: "isEventWithinRange tza ''2025-06-15'' ''2025-06-15'' ''2025-06-15'' = Inr True"
    using assms
    by (simp add: isEventWithinRange_def parse_0615 getTime_def ToNumber_def jsLess_def
        setHoursEndOfDay_def TimeClip_def timeValue_def MakeDay_2025_06 msPerDay_def)
  have b: "isEventWithinRange tza ''2025-06-15'' ''2025-06-15'' ''2025-06-14'' = Inr False"
    using assms
    by (simp add: isEventWithinRange_def parse_0615 parse_0614 getTime_def ToNumber_def
        jsLess_def setHoursEndOfDay_def TimeClip_def timeValue_def MakeDay_2025_06 msPerDay_def)
  have c: "isEventWithinRange tza ''2025-06-15'' ''2025-06-15'' ''2025-06-16'' = Inr False"
    using assms
    by (simp add: isEventWithinRange_def parse_0615 parse_0616 getTime_def ToNumber_def
        jsLess_def setHoursEndOfDay_def TimeClip_def timeValue_def MakeDay_2025_06 msPerDay_def)
  from a b c show ?thesis by simp
qed

theorem inclusive_boundaries_witness:
  "\<bar>3600000\<bar> \<le> msPerDay
   \<and> isEventWithinRange 3600000 ''2025-06-15'' ''2025-06-15'' ''2025-06-15'' = Inr True
   \<and> isEventWithinRange 3600000 ''2025-06-15'' ''2025-06-15'' ''2025-06-14'' = Inr False
   \<and> isEventWithinRange 3600000 ''2025-06-15'' ''2025-06-15'' ''2025-06-16'' = Inr False"
proof -
  have h: "\<bar>3600000\<bar> \<le> msPerDay" by (simp add: msPerDay_def)
  from inclusive_boundaries [OF h] h show ?thesis by blast
qed



section \<open>The visible ranges\<close>

text \<open>
  Claim C8 says that under an active filter a range is visible exactly when one of its
  events is in the interval. The code does so as long as no date raises
  (\<open>visibleRanges_no_raise\<close>, and \<open>visibleRanges_no_filter\<close> without a filter). It
  does not when a date decodes to \<^verbatim>\<open>null\<close>: of two ranges, the first with an event in
  the interval and the second with an event dated \<open>not-a-date\<close>, the first is not shown,
  because the TypeError of the filter ends the computation of the visible ranges.
  (The time zone offset is at most a day.)
\<close>

theorem visibleRanges_raises:
  assumes "\<bar>tza\<bar> \<le> msPerDay"
  shows "isEventWithinRange tza ''2025-01-01'' ''2025-12-31'' ''2025-06-15'' = Inr True
       \<and> visibleRanges tza ''2025-01-01'' ''2025-12-31''
           [\<lparr>skytterlag_id = ''A'',
             stevner = [\<lparr>id' = ''A-0'', name = ''Banestevne'', rsvpOpen = True, attendees = 10,
                         maxAttendees = 40, date = ''2025-06-15''\<rparr>]\<rparr>,
            \<lparr>skytterlag_id = ''B'',
             stevner = [\<lparr>id' = ''B-0'', name = ''Banestevne'', rsvpOpen = True, attendees = 10,
                         maxAttendees = 40, date = ''not-a-date''\<rparr>]\<rparr>] = Inl TypeError"
proof -
  have bad: "isEventWithinRange tza ''2025-01-01'' ''2025-12-31'' ''not-a-date'' = Inl TypeError"
    by (simp add: isEventWithinRange_def parseLocalDate_not_a_date)
  from isEventWithinRange_in_2025 [OF assms] bad show ?thesis
    by (simp add: visibleRanges_def)
qed

theorem visibleRanges_raises_witness:
  "\<bar>7200000\<bar> \<le> msPerDay
   \<and> isEventWithinRange 7200000 ''2025-01-01'' ''2025-12-31'' ''2025-06-15'' = Inr True
   \<and> visibleRanges 7200000 ''2025-01-01'' ''2025-12-31''
       [\<lparr>skytterlag_id = ''A'',
         stevner = [\<lparr>id' = ''A-0'', name = ''Banestevne'', rsvpOpen = True, attendees = 10,
                     maxAttendees = 40, date = ''2025-06-15''\<rparr>]\<rparr>,
        \<lparr>skytterlag_id = ''B'',
         stevner = [\<lparr>id' = ''B-0'', name = ''Banestevne'', rsvpOpen = True, attendees = 10,
                     maxAttendees = 40, date = ''not-a-date''\<rparr>]\<rparr>] = Inl TypeError"
proof -
  have h: "\<bar>7200000\<bar> \<le> msPerDay" by (simp add: msPerDay_def)
  from visibleRanges_raises [OF h] h show ?thesis by blast
qed

end
